theory Spec2Isabelle
  imports Main "HOL-Library.Char_ord" "HOL-Library.List_Lexorder"
begin

section \<open>Glob matching: the library function behind the file filter\<close>

text \<open>
  \<^verbatim>\<open>compose_filter\<close> calls \<^verbatim>\<open>fnmatch(file_name, p)\<close> of Python's standard library.
  The library translates a pattern into a regular expression and matches the whole
  name against it; on POSIX the case normalisation applied first is the identity.
  The model follows the library's \<^verbatim>\<open>translate\<close>: the pattern becomes a list of
  tokens, and \<open>glob_match\<close> gives the meaning of the regular expression made
  from them (anchored at both ends, the dot matching every character).
  Python strings are modelled as \<open>string\<close>, one \<open>char\<close> per character.
\<close>

datatype glob_token =
    STAR
  | ANYCHAR
  | NEVER
  | LIT char
  | CHARSET bool "string list"

text \<open>
  After an opening bracket at the front of \<open>cs\<close>: skip one \<open>!\<close>, skip one
  \<open>]\<close>, then scan to the next \<open>]\<close>. Without one the bracket is a literal.
  With one, the result is the text between the brackets and the pattern after them.
\<close>

definition find_close :: "string \<Rightarrow> (string \<times> string) option" where
  "find_close cs =
     (let (p1, r1) = (case cs of [] \<Rightarrow> ([], cs)
                      | c # r \<Rightarrow> if c = CHR ''!'' then ([c], r) else ([], cs));
          (p2, r2) = (case r1 of [] \<Rightarrow> ([], r1)
                      | c # r \<Rightarrow> if c = CHR '']'' then ([c], r) else ([], r1));
          body = takeWhile (\<lambda>c. c \<noteq> CHR '']'') r2;
          rest = dropWhile (\<lambda>c. c \<noteq> CHR '']'') r2
      in if rest = [] then None else Some (p1 @ p2 @ body, tl rest))"

text \<open>
  The text between the brackets is cut at the hyphens that make ranges. A hyphen is
  looked for from the second character on (the third after \<open>!\<close>), and after a
  hyphen the next two characters are passed over, which is what \<open>skip\<close> counts.
  A range hyphen that ends the text is kept as a character of the chunk before it.
\<close>

fun split_chunks :: "nat \<Rightarrow> string \<Rightarrow> string \<Rightarrow> string list" where
  "split_chunks skip cur [] = [cur]"
| "split_chunks skip cur (c # cs) =
     (if skip = 0 \<and> c = CHR ''-''
      then (if cs = [] then [cur @ [c]] else cur # split_chunks 2 [] cs)
      else split_chunks (skip - 1) (cur @ [c]) cs)"

text \<open>
  Empty ranges are removed from the last chunk to the first: where the last character
  of a chunk is above the first character of the next, the two end points go and the
  chunks are joined. (The chunks compared are never empty; the tests for that only
  make the function total.)
\<close>

fun drop_empty_ranges :: "string list \<Rightarrow> string list" where
  "drop_empty_ranges [] = []"
| "drop_empty_ranges (x # xs) =
     (case drop_empty_ranges xs of
        [] \<Rightarrow> [x]
      | y # ys \<Rightarrow>
          if x \<noteq> [] \<and> y \<noteq> [] \<and> (of_char (hd y) :: nat) < of_char (last x)
          then (butlast x @ tl y) # ys
          else x # y # ys)"

fun in_ranges :: "char \<Rightarrow> string list \<Rightarrow> bool" where
  "in_ranges c (l # r # rest) =
     ((l \<noteq> [] \<and> r \<noteq> [] \<and> (of_char (last l) :: nat) \<le> of_char c
        \<and> (of_char c :: nat) \<le> of_char (hd r))
      \<or> in_ranges c (r # rest))"
| "in_ranges c [x] = False"
| "in_ranges c [] = False"

definition in_charset :: "char \<Rightarrow> string list \<Rightarrow> bool" where
  "in_charset c chunks = (c \<in> set (concat chunks) \<or> in_ranges c chunks)"

definition make_set :: "string \<Rightarrow> glob_token" where
  "make_set stuff =
     (let chunks = drop_empty_ranges
                     (split_chunks (if stuff \<noteq> [] \<and> hd stuff = CHR ''!'' then 2 else 1) [] stuff)
      in if concat chunks = [] then NEVER
         else if chunks = [''!''] then ANYCHAR
         else (case chunks of
                 [] \<Rightarrow> NEVER
               | x # xs \<Rightarrow>
                   if x \<noteq> [] \<and> hd x = CHR ''!'' then CHARSET True (tl x # xs)
                   else CHARSET False chunks))"

lemma find_close_shorter:
  "find_close cs = Some (stuff, rest) \<Longrightarrow> length rest \<le> length cs"
proof -
  have dw: "length (tl (dropWhile P xs)) \<le> length xs" for P and xs :: string
    using length_dropWhile_le [of P xs] by simp
  assume "find_close cs = Some (stuff, rest)"
  then show ?thesis
    unfolding find_close_def Let_def
    by (auto split: list.splits if_splits prod.splits
          intro: le_trans [OF dw] le_SucI)
qed

function translate_aux :: "glob_token list \<Rightarrow> string \<Rightarrow> glob_token list" where
  "translate_aux res [] = res"
| "translate_aux res (c # cs) =
     (if c = CHR ''*'' then
        (if res = [] \<or> last res \<noteq> STAR then translate_aux (res @ [STAR]) cs
         else translate_aux res cs)
      else if c = CHR ''?'' then translate_aux (res @ [ANYCHAR]) cs
      else if c = CHR ''['' then
        (case find_close cs of
           None \<Rightarrow> translate_aux (res @ [LIT (CHR ''['')]) cs
         | Some (stuff, rest) \<Rightarrow> translate_aux (res @ [make_set stuff]) rest)
      else translate_aux (res @ [LIT c]) cs)"
  by pat_completeness auto
termination
  by (relation "measure (\<lambda>(res, p). length p)")
     (auto dest: find_close_shorter)

definition translate :: "string \<Rightarrow> glob_token list" where
  "translate pat = translate_aux [] pat"

fun token_matches :: "glob_token \<Rightarrow> char \<Rightarrow> bool" where
  "token_matches STAR c = True"
| "token_matches ANYCHAR c = True"
| "token_matches NEVER c = False"
| "token_matches (LIT d) c = (c = d)"
| "token_matches (CHARSET neg chunks) c = (in_charset c chunks \<noteq> neg)"

fun glob_match :: "glob_token list \<Rightarrow> string \<Rightarrow> bool" where
  "glob_match [] n = (n = [])"
| "glob_match (STAR # ts) [] = glob_match ts []"
| "glob_match (STAR # ts) (c # cs) = (glob_match ts (c # cs) \<or> glob_match (STAR # ts) cs)"
| "glob_match (t # ts) [] = False"
| "glob_match (t # ts) (c # cs) = (token_matches t c \<and> glob_match ts cs)"

definition fnmatch :: "string \<Rightarrow> string \<Rightarrow> bool" where
  "fnmatch name pat = glob_match (translate pat) name"

section \<open>The file filter\<close>

text \<open>
  \<^verbatim>\<open>allow or ["*"]\<close> and \<^verbatim>\<open>deny or []\<close>: Python's \<^verbatim>\<open>or\<close> takes the right
  operand when the left one is falsy, that is \<^verbatim>\<open>None\<close> or the empty list.
\<close>

definition py_or :: "'a list option \<Rightarrow> 'a list \<Rightarrow> 'a list" where
  "py_or x d = (case x of None \<Rightarrow> d | Some xs \<Rightarrow> if xs = [] then d else xs)"

text \<open>The inner function \<^verbatim>\<open>match\<close>, with the two lists its closure holds.\<close>

definition match :: "string list \<Rightarrow> string list \<Rightarrow> string \<Rightarrow> bool" where
  "match allow_list deny_list file_name =
     (let is_allowed = list_ex (\<lambda>p. fnmatch file_name p) allow_list;
          is_denyed = list_ex (\<lambda>p. fnmatch file_name p) deny_list
      in is_allowed \<and> \<not> is_denyed)"

definition compose_filter :: "string list option \<Rightarrow> string list option \<Rightarrow> string \<Rightarrow> bool" where
  "compose_filter allow deny =
     (let allow_list = py_or allow [''*''];
          deny_list = py_or deny []
      in match allow_list deny_list)"

text \<open>
  The spec's \<^verbatim>\<open>matches_any(n, patterns)\<close>: the name matches at least one pattern of the
  list. It follows the spec's words and is what the filter is compared with.
\<close>

definition matches_any :: "string \<Rightarrow> string list \<Rightarrow> bool" where
  "matches_any n patterns = list_ex (\<lambda>p. fnmatch n p) patterns"

section \<open>The closure and the lists it holds\<close>









section \<open>Durations\<close>

text \<open>
  The two ways duration resolution fails: \<^verbatim>\<open>InvalidRangeError\<close> is the spec's error
  kind for time-window parameters, \<^verbatim>\<open>ValueError\<close> is what Python's \<^verbatim>\<open>int\<close> raises
  on a text that is not an integer.
\<close>

datatype error = InvalidRangeError | ValueError

text \<open>
  Modelled from the spec: the points in time of a \<^verbatim>\<open>Duration\<close> (the class
  \<^verbatim>\<open>gilot.core.Duration\<close> is not among the sources). A date is a calendar day.
\<close>

datatype date = Date (year_of: int) (month_of: nat) (day_of: nat)

text \<open>
  Modelled from the spec: \<^verbatim>\<open>Duration\<close>, the half-open interval from
  \<open>dur_start\<close> (included) to \<open>dur_end\<close> (excluded).
\<close>

datatype duration = Duration (dur_start: date) (dur_end: date)

text \<open>
  Modelled from the spec: the order of dates and "plus \<open>m\<close> months", which the
  missing class computes. \<open>month_index\<close> numbers the calendar months; a date is
  before another when its month is, or in the same month its day is. Adding months
  moves the month index and keeps the day, cut down to the length of the month
  reached.
\<close>

definition month_index :: "date \<Rightarrow> int" where
  "month_index d = year_of d * 12 + int (month_of d) - 1"

definition date_less :: "date \<Rightarrow> date \<Rightarrow> bool" where
  "date_less a b =
     (month_index a < month_index b \<or> (month_index a = month_index b \<and> day_of a < day_of b))"

definition leap_year :: "int \<Rightarrow> bool" where
  "leap_year y = (y mod 4 = 0 \<and> (y mod 100 \<noteq> 0 \<or> y mod 400 = 0))"

definition days_in_month :: "int \<Rightarrow> nat \<Rightarrow> nat" where
  "days_in_month y m =
     (if m = 2 then (if leap_year y then 29 else 28)
      else if m = 4 \<or> m = 6 \<or> m = 9 \<or> m = 11 then 30 else 31)"

definition add_months :: "date \<Rightarrow> int \<Rightarrow> date" where
  "add_months d k =
     (let idx = month_index d + k;
          y = idx div 12;
          m = nat (idx mod 12) + 1
      in Date y m (min (day_of d) (days_in_month y m)))"

text \<open>
  Modelled from the spec: the number of calendar months from the start of a duration
  to its end.
\<close>

definition months_between :: "duration \<Rightarrow> int" where
  "months_between d = month_index (dur_end d) - month_index (dur_start d)"

text \<open>
  Decimal digits, for reading dates and month counts.
\<close>

definition is_digit :: "char \<Rightarrow> bool" where
  "is_digit c = (48 \<le> (of_char c :: nat) \<and> (of_char c :: nat) \<le> 57)"

definition digit_value :: "char \<Rightarrow> nat" where
  "digit_value c = of_char c - 48"

definition digits_value :: "string \<Rightarrow> nat" where
  "digits_value ds = foldl (\<lambda>acc c. 10 * acc + digit_value c) 0 ds"

text \<open>
  Modelled from the spec: how the missing class reads a date from the option's text.
  The option's help asks for the ISO format, as in \<^verbatim>\<open>2020-01-01\<close>; any other text
  is a malformed parameter.
\<close>

definition parse_date :: "string \<Rightarrow> date option" where
  "parse_date s =
     (if length s = 10 \<and> s ! 4 = CHR ''-'' \<and> s ! 7 = CHR ''-''
         \<and> list_all is_digit (take 4 s) \<and> list_all is_digit (take 2 (drop 5 s))
         \<and> list_all is_digit (drop 8 s)
      then (let y = int (digits_value (take 4 s));
                m = digits_value (take 2 (drop 5 s));
                d = digits_value (drop 8 s)
            in if 1 \<le> m \<and> m \<le> 12 \<and> 1 \<le> d \<and> d \<le> days_in_month y m
               then Some (Date y m d) else None)
      else None)"

text \<open>
  Modelled from the spec: \<^verbatim>\<open>Duration.range(since, until)\<close>, not among the sources. It
  is the interval from \<open>since\<close> to \<open>until\<close>, and fails with
  \<^verbatim>\<open>InvalidRangeError\<close> when \<open>since\<close> is not before \<open>until\<close> or a text is
  malformed.
\<close>

definition Duration_range :: "string \<Rightarrow> string \<Rightarrow> error + duration" where
  "Duration_range since_str until_str =
     (case (parse_date since_str, parse_date until_str) of
        (Some s, Some u) \<Rightarrow> if date_less s u then Inr (Duration s u) else Inl InvalidRangeError
      | _ \<Rightarrow> Inl InvalidRangeError)"

text \<open>
  Modelled from the spec: \<^verbatim>\<open>Duration.months(m, since=None)\<close>, not among the sources.
  It fails with \<^verbatim>\<open>InvalidRangeError\<close> when \<open>m \<le> 0\<close>; with \<open>since\<close> it is
  the \<open>m\<close> months from \<open>since\<close>, without it the \<open>m\<close> months up to
  \<open>now\<close>, the clock's reading, which the model takes as an argument.
\<close>

definition Duration_months :: "date \<Rightarrow> int \<Rightarrow> string option \<Rightarrow> error + duration" where
  "Duration_months now m since_str =
     (if m \<le> 0 then Inl InvalidRangeError
      else (case since_str of
              None \<Rightarrow> Inr (Duration (add_months now (- m)) now)
            | Some str \<Rightarrow>
                (case parse_date str of
                   None \<Rightarrow> Inl InvalidRangeError
                 | Some s \<Rightarrow> Inr (Duration s (add_months s m)))))"

text \<open>
  Python's \<^verbatim>\<open>int(text)\<close>: white space around the number is dropped, one sign may
  come first, then decimal digits, where single underscores may stand between digits.
  Any other text raises \<^verbatim>\<open>ValueError\<close>, here \<open>None\<close>. (Digits outside ASCII
  are not modelled.)
\<close>

definition is_space :: "char \<Rightarrow> bool" where
  "is_space c = (let k = (of_char c :: nat) in (9 \<le> k \<and> k \<le> 13) \<or> k = 32)"

definition strip :: "string \<Rightarrow> string" where
  "strip s = rev (dropWhile is_space (rev (dropWhile is_space s)))"

fun after_digit :: "nat \<Rightarrow> string \<Rightarrow> nat option" where
  "after_digit acc [] = Some acc"
| "after_digit acc (c # cs) =
     (if is_digit c then after_digit (10 * acc + digit_value c) cs
      else if c = CHR ''_'' then
        (case cs of
           [] \<Rightarrow> None
         | d # ds \<Rightarrow> if is_digit d then after_digit (10 * acc + digit_value d) ds else None)
      else None)"

definition py_digits :: "string \<Rightarrow> nat option" where
  "py_digits s =
     (case s of [] \<Rightarrow> None
      | c # cs \<Rightarrow> if is_digit c then after_digit (digit_value c) cs else None)"

definition py_int :: "string \<Rightarrow> int option" where
  "py_int s =
     (case strip s of
        [] \<Rightarrow> None
      | c # cs \<Rightarrow>
          if c = CHR ''-'' then map_option (\<lambda>n. - int n) (py_digits cs)
          else if c = CHR ''+'' then map_option int (py_digits cs)
          else map_option int (py_digits (c # cs)))"

text \<open>
  The truth value Python gives an option's value in a condition: \<^verbatim>\<open>None\<close> and the
  empty text are false, every other text is true.
\<close>

definition truthy :: "string option \<Rightarrow> bool" where
  "truthy x = (case x of None \<Rightarrow> False | Some s \<Rightarrow> s \<noteq> [])"

text \<open>
  The options of the \<^verbatim>\<open>log\<close> command that \<^verbatim>\<open>args_to_duration\<close> reads. The
  parser declares each without a type, so each is a text, or \<^verbatim>\<open>None\<close> when absent.
\<close>

record args =
  since :: "string option"
  until :: "string option"
  month :: "string option"

text \<open>
  \<^verbatim>\<open>args_to_duration\<close>, branch by branch as the source has it. \<open>the\<close> is
  applied only under the truthiness test of the same option.
\<close>

definition args_to_duration :: "date \<Rightarrow> args \<Rightarrow> error + duration" where
  "args_to_duration now a =
     (if truthy (since a) \<and> truthy (until a) then
        Duration_range (the (since a)) (the (until a))
      else if truthy (since a) \<and> truthy (month a) then
        (case py_int (the (month a)) of
           None \<Rightarrow> Inl ValueError
         | Some m \<Rightarrow> Duration_months now m (since a))
      else if truthy (since a) then Duration_months now 6 (since a)
      else if truthy (month a) then
        (case py_int (the (month a)) of
           None \<Rightarrow> Inl ValueError
         | Some m \<Rightarrow> Duration_months now m None)
      else Duration_months now 6 None)"

text \<open>
  What a configuration says, for stating when resolution fails: the dates and the
  month count that the supplied options denote, a configuration being valid when
  every supplied option is well formed, and \<open>date_le\<close> for "not after".
\<close>

definition since_date :: "args \<Rightarrow> date option" where
  "since_date a = (if truthy (since a) then parse_date (the (since a)) else None)"

definition until_date :: "args \<Rightarrow> date option" where
  "until_date a = (if truthy (until a) then parse_date (the (until a)) else None)"

definition month_count :: "args \<Rightarrow> int option" where
  "month_count a = (if truthy (month a) then py_int (the (month a)) else None)"

definition valid_config :: "args \<Rightarrow> bool" where
  "valid_config a =
     ((truthy (since a) \<longrightarrow> since_date a \<noteq> None)
      \<and> (truthy (until a) \<longrightarrow> until_date a \<noteq> None)
      \<and> (truthy (month a) \<longrightarrow> month_count a \<noteq> None))"

definition date_le :: "date \<Rightarrow> date \<Rightarrow> bool" where
  "date_le a b = (date_less a b \<or> a = b)"

section \<open>The report handlers\<close>

text \<open>
  The truth value of a list option: \<^verbatim>\<open>None\<close> and the empty list are false.
\<close>

definition truthy_list :: "'a list option \<Rightarrow> bool" where
  "truthy_list x = (case x of None \<Rightarrow> False | Some xs \<Rightarrow> xs \<noteq> [])"

text \<open>
  The operations of the \<^verbatim>\<open>gilot\<close> package that the handlers call are not among the
  sources. The handlers are modelled over any implementation of them: \<open>'t\<close> is
  the type of tables, \<open>from_csvs\<close> loads one, \<open>filter_files\<close> and
  \<open>expand_files\<close> are the table's two methods that take a predicate on file names.
\<close>

record 't gilot =
  from_csvs :: "string list \<Rightarrow> 't"
  filter_files :: "'t \<Rightarrow> (string \<Rightarrow> bool) \<Rightarrow> 't"
  expand_files :: "'t \<Rightarrow> (string \<Rightarrow> bool) \<Rightarrow> 't"

text \<open>
  The options the four report commands read. \<^verbatim>\<open>args.output\<close> is the field
  \<open>output_file\<close>.
\<close>

record report_args =
  input :: "string list"
  allow_files :: "string list option"
  ignore_files :: "string list option"
  output_file :: "string option"
  name :: string
  timeslot :: string
  csv :: bool
  num :: int
  rank :: int
  stop_retry :: bool

text \<open>
  What a handler does with the table in the end is a call of the package (or a print
  of its result), kept as a value: the operation, the table it is given and the
  options passed along. Setting up logging is left out.
\<close>

datatype 't call =
    Plot 't "string option" string string
  | Info 't
  | Hotspot_csv 't "string option"
  | Hotspot_print 't int
  | Hotgraph 't "string option" int bool

definition handle_plot :: "'t gilot \<Rightarrow> report_args \<Rightarrow> 't call" where
  "handle_plot g a =
     (let df = from_csvs g (input a);
          df = (if truthy_list (allow_files a) \<or> truthy_list (ignore_files a)
                then filter_files g df (compose_filter (allow_files a) (ignore_files a))
                else df)
      in Plot df (output_file a) (name a) (timeslot a))"

definition handle_info :: "'t gilot \<Rightarrow> report_args \<Rightarrow> 't call" where
  "handle_info g a =
     (let df = from_csvs g (input a);
          df = (if truthy_list (allow_files a) \<or> truthy_list (ignore_files a)
                then filter_files g df (compose_filter (allow_files a) (ignore_files a))
                else df)
      in Info df)"

definition handle_hotspot :: "'t gilot \<Rightarrow> report_args \<Rightarrow> 't call" where
  "handle_hotspot g a =
     (let df = from_csvs g (input a);
          expanded = expand_files g df (compose_filter (allow_files a) (ignore_files a))
      in if csv a then Hotspot_csv expanded (output_file a) else Hotspot_print expanded (num a))"

definition handle_hotgraph :: "'t gilot \<Rightarrow> report_args \<Rightarrow> 't call" where
  "handle_hotgraph g a =
     (let df = from_csvs g (input a);
          is_match = compose_filter (allow_files a) (ignore_files a);
          epanded_df = expand_files g df is_match
      in Hotgraph epanded_df (output_file a) (rank a) (stop_retry a))"

text \<open>
  A small implementation of the package's operations, for concrete runs: a table is a
  list of file names.
\<close>

definition example_gilot :: "string list gilot" where
  "example_gilot =
     \<lparr>from_csvs = (\<lambda>paths. paths),
      filter_files = (\<lambda>t p. filter p t),
      expand_files = (\<lambda>t p. filter p t)\<rparr>"

definition example_args :: "string list option \<Rightarrow> report_args" where
  "example_args allow =
     \<lparr>input = [''gilot/app.py'', ''README.md''], allow_files = allow, ignore_files = None,
      output_file = None, name = ''GIT LOG REPORT'', timeslot = ''2W'', csv = False,
      num = 30, rank = 70, stop_retry = False\<rparr>"

section \<open>The hotspot report\<close>

text \<open>
  Modelled from the spec: \<^verbatim>\<open>FileChangeRecord\<close>, one row per file a commit touches
  (its fields \<^verbatim>\<open>hash\<close>, \<^verbatim>\<open>author\<close>, \<^verbatim>\<open>timestamp\<close>, \<^verbatim>\<open>file_name\<close>). The
  aggregation \<^verbatim>\<open>gilot.hotspot\<close> is not among the sources.
\<close>

record file_change =
  fc_hash :: string
  fc_author :: string
  fc_timestamp :: int
  fc_file_name :: string

text \<open>
  Modelled from the spec: \<^verbatim>\<open>HotspotRow\<close>, one row of the report. The spec leaves
  the arithmetic of the score open, so the score type is any linear order.
\<close>

record 'a hotspot_row =
  file_name :: string
  commits :: nat
  authors :: nat
  hotspot :: 'a

text \<open>
  Modelled from the spec: steps 1 to 3 of the aggregation. The rows of one file are
  grouped, \<open>commits\<close> counts their distinct hashes, \<open>authors\<close> their distinct
  authors, and \<open>combine\<close>, a parameter, makes the score of the two counts.
\<close>

definition hotspot_row_of ::
  "(nat \<Rightarrow> nat \<Rightarrow> 'a) \<Rightarrow> file_change list \<Rightarrow> string \<Rightarrow> 'a hotspot_row" where
  "hotspot_row_of combine table f =
     (let grp = filter (\<lambda>r. fc_file_name r = f) table;
          c = length (remdups (map fc_hash grp));
          a = length (remdups (map fc_author grp))
      in \<lparr>file_name = f, commits = c, authors = a, hotspot = combine c a\<rparr>)"

text \<open>
  Modelled from the spec: step 4, the order of the report. A row comes before another
  when its score is higher, or the scores are equal and its file name is not after
  the other's. The rows are sorted by insertion.
\<close>

definition row_before :: "('a::linorder) hotspot_row \<Rightarrow> 'a hotspot_row \<Rightarrow> bool" where
  "row_before a b =
     (hotspot b < hotspot a \<or> (hotspot a = hotspot b \<and> file_name a \<le> file_name b))"

fun insert_row :: "('a::linorder) hotspot_row \<Rightarrow> 'a hotspot_row list \<Rightarrow> 'a hotspot_row list" where
  "insert_row x [] = [x]"
| "insert_row x (y # ys) = (if row_before x y then x # y # ys else y # insert_row x ys)"

fun sort_rows :: "('a::linorder) hotspot_row list \<Rightarrow> 'a hotspot_row list" where
  "sort_rows [] = []"
| "sort_rows (x # xs) = insert_row x (sort_rows xs)"

text \<open>
  Modelled from the spec: \<^verbatim>\<open>aggregate(table)\<close>, one row per file name of the table,
  sorted.
\<close>

definition aggregate ::
  "(nat \<Rightarrow> nat \<Rightarrow> 'a::linorder) \<Rightarrow> file_change list \<Rightarrow> 'a hotspot_row list" where
  "aggregate combine table =
     sort_rows (map (hotspot_row_of combine table) (remdups (map fc_file_name table)))"

text \<open>
  The scenario of the spec: three commits, the third by a second author, with one
  more file in the second commit so that two scores tie.
\<close>

definition scenario :: "file_change list" where
  "scenario =
     [\<lparr>fc_hash = ''c1'', fc_author = ''ann'', fc_timestamp = 1, fc_file_name = ''A''\<rparr>,
      \<lparr>fc_hash = ''c1'', fc_author = ''ann'', fc_timestamp = 1, fc_file_name = ''B''\<rparr>,
      \<lparr>fc_hash = ''c2'', fc_author = ''ann'', fc_timestamp = 2, fc_file_name = ''D''\<rparr>,
      \<lparr>fc_hash = ''c2'', fc_author = ''ann'', fc_timestamp = 2, fc_file_name = ''A''\<rparr>,
      \<lparr>fc_hash = ''c2'', fc_author = ''ann'', fc_timestamp = 2, fc_file_name = ''B''\<rparr>,
      \<lparr>fc_hash = ''c2'', fc_author = ''ann'', fc_timestamp = 2, fc_file_name = ''C''\<rparr>,
      \<lparr>fc_hash = ''c3'', fc_author = ''bob'', fc_timestamp = 3, fc_file_name = ''A''\<rparr>]"

section \<open>Properties of glob matching\<close>

lemma glob_match_star_cons:
  "glob_match (STAR # ts) n \<longleftrightarrow> (\<exists>a b. n = a @ b \<and> glob_match ts b)"
proof (induction n)
  case Nil
  show ?case by simp
next
  case (Cons c cs)
  show ?case
  proof
    assume "glob_match (STAR # ts) (c # cs)"
    then consider "glob_match ts (c # cs)" | "glob_match (STAR # ts) cs"
      by auto
    then show "\<exists>a b. c # cs = a @ b \<and> glob_match ts b"
    proof cases
      case 1
      then have "c # cs = [] @ (c # cs) \<and> glob_match ts (c # cs)" by simp
      then show ?thesis by blast
    next
      case 2
      with Cons.IH obtain a b where "cs = a @ b" "glob_match ts b" by blast
      then have "c # cs = (c # a) @ b \<and> glob_match ts b" by simp
      then show ?thesis by blast
    qed
  next
    assume "\<exists>a b. c # cs = a @ b \<and> glob_match ts b"
    then obtain a b where ab: "c # cs = a @ b" "glob_match ts b" by blast
    show "glob_match (STAR # ts) (c # cs)"
    proof (cases a)
      case Nil
      with ab have "b = c # cs" by simp
      with ab(2) show ?thesis by simp
    next
      case (Cons d a')
      with ab have "cs = a' @ b" by simp
      with ab(2) Cons.IH have "glob_match (STAR # ts) cs" by blast
      then show ?thesis by simp
    qed
  qed
qed

lemma glob_match_single_cons:
  "t \<noteq> STAR \<Longrightarrow>
   glob_match (t # ts) n \<longleftrightarrow> (\<exists>c cs. n = c # cs \<and> token_matches t c \<and> glob_match ts cs)"
  by (cases t; cases n) simp_all

lemma glob_match_append:
  "glob_match (xs @ ys) n \<longleftrightarrow> (\<exists>a b. n = a @ b \<and> glob_match xs a \<and> glob_match ys b)"
proof (induction xs arbitrary: n)
  case Nil
  show ?case by simp
next
  case (Cons t ts)
  show ?case
  proof (cases "t = STAR")
    case True
    have "glob_match ((t # ts) @ ys) n \<longleftrightarrow> (\<exists>a b. n = a @ b \<and> glob_match (ts @ ys) b)"
      using True by (simp add: glob_match_star_cons)
    also have "\<dots> \<longleftrightarrow> (\<exists>a b1 b2. n = a @ b1 @ b2 \<and> glob_match ts b1 \<and> glob_match ys b2)"
      using Cons.IH by blast
    also have "\<dots> \<longleftrightarrow> (\<exists>a' b2. n = a' @ b2 \<and> (\<exists>a b1. a' = a @ b1 \<and> glob_match ts b1) \<and> glob_match ys b2)"
      by (metis append.assoc)
    also have "\<dots> \<longleftrightarrow> (\<exists>a' b2. n = a' @ b2 \<and> glob_match (t # ts) a' \<and> glob_match ys b2)"
      using True by (simp add: glob_match_star_cons)
    finally show ?thesis .
  next
    case False
    have "glob_match ((t # ts) @ ys) n \<longleftrightarrow>
            (\<exists>c cs. n = c # cs \<and> token_matches t c \<and> glob_match (ts @ ys) cs)"
      using False by (simp add: glob_match_single_cons)
    also have "\<dots> \<longleftrightarrow>
            (\<exists>c a b. n = c # a @ b \<and> token_matches t c \<and> glob_match ts a \<and> glob_match ys b)"
      using Cons.IH by blast
    also have "\<dots> \<longleftrightarrow>
            (\<exists>a' b. n = a' @ b \<and> (\<exists>c a. a' = c # a \<and> token_matches t c \<and> glob_match ts a)
               \<and> glob_match ys b)"
      by (metis append_Cons)
    also have "\<dots> \<longleftrightarrow> (\<exists>a' b. n = a' @ b \<and> glob_match (t # ts) a' \<and> glob_match ys b)"
      using False by (simp add: glob_match_single_cons)
    finally show ?thesis .
  qed
qed

lemma glob_match_star_all: "glob_match [STAR] n"
  by (simp add: glob_match_star_cons)

lemma sem_step:
  assumes L: "\<And>m. glob_match X m \<longleftrightarrow> (\<exists>a b. m = a @ b \<and> glob_match (res @ [t]) a \<and> G b)"
      and R: "\<And>m. glob_match Y m \<longleftrightarrow> (\<exists>a b. m = a @ b \<and> glob_match [t] a \<and> G b)"
  shows "glob_match X n \<longleftrightarrow> (\<exists>a b. n = a @ b \<and> glob_match res a \<and> glob_match Y b)"
proof
  assume "glob_match X n"
  with L obtain a b where ab: "n = a @ b" "glob_match (res @ [t]) a" "G b" by blast
  from ab(2) obtain a1 a2 where a: "a = a1 @ a2" "glob_match res a1" "glob_match [t] a2"
    using glob_match_append by blast
  from a(3) ab(3) R have "glob_match Y (a2 @ b)" by blast
  moreover have "n = a1 @ (a2 @ b)" using ab(1) a(1) by simp
  ultimately show "\<exists>a b. n = a @ b \<and> glob_match res a \<and> glob_match Y b"
    using a(2) by blast
next
  assume "\<exists>a b. n = a @ b \<and> glob_match res a \<and> glob_match Y b"
  then obtain a b where ab: "n = a @ b" "glob_match res a" "glob_match Y b" by blast
  from ab(3) R obtain x y where xy: "b = x @ y" "glob_match [t] x" "G y" by blast
  from ab(2) xy(2) have "glob_match (res @ [t]) (a @ x)"
    using glob_match_append by blast
  moreover have "n = (a @ x) @ y" using ab(1) xy(1) by simp
  ultimately show "glob_match X n" using xy(3) L by blast
qed

lemma star_end_absorbs:
  assumes "res \<noteq> []" "last res = STAR" "glob_match res a"
  shows "glob_match res (a @ x)"
proof -
  have res: "res = butlast res @ [STAR]"
    using assms(1,2) by (metis append_butlast_last_id)
  with assms(3) obtain a1 a2 where "a = a1 @ a2" "glob_match (butlast res) a1"
    using glob_match_append [of "butlast res" "[STAR]" a] by auto
  then have "a @ x = a1 @ (a2 @ x)" "glob_match (butlast res) a1" "glob_match [STAR] (a2 @ x)"
    by (simp_all add: glob_match_star_all)
  then have "glob_match (butlast res @ [STAR]) (a @ x)"
    using glob_match_append [of "butlast res" "[STAR]" "a @ x"] by blast
  with res show ?thesis by simp
qed

lemma translate_aux_sem:
  "glob_match (translate_aux res p) n \<longleftrightarrow>
     (\<exists>a b. n = a @ b \<and> glob_match res a \<and> glob_match (translate_aux [] p) b)"
proof (induction "length p" arbitrary: res p n rule: less_induct)
  case less
  show ?case
  proof (cases p)
    case Nil
    then show ?thesis by simp
  next
    case (Cons c cs)
    have step: "glob_match (translate_aux res p) n \<longleftrightarrow>
        (\<exists>a b. n = a @ b \<and> glob_match res a \<and> glob_match (translate_aux [] p) b)"
      if X: "translate_aux res p = translate_aux (res @ [t]) r"
        and Y: "translate_aux [] p = translate_aux [t] r"
        and len: "length r < length p" for t r
    proof -
      have L: "glob_match (translate_aux res p) m \<longleftrightarrow>
          (\<exists>a b. m = a @ b \<and> glob_match (res @ [t]) a \<and> glob_match (translate_aux [] r) b)" for m
        unfolding X using less [OF len] .
      have R: "glob_match (translate_aux [] p) m \<longleftrightarrow>
          (\<exists>a b. m = a @ b \<and> glob_match [t] a \<and> glob_match (translate_aux [] r) b)" for m
        unfolding Y using less [OF len] .
      show ?thesis using sem_step [of "translate_aux res p" res t "glob_match (translate_aux [] r)" "translate_aux [] p" n] L R
        by blast
    qed
    have lcs: "length cs < length p" using Cons by simp
    show ?thesis
    proof (cases "c = CHR ''*''")
      case star: True
      show ?thesis
      proof (cases "res = [] \<or> last res \<noteq> STAR")
        case True
        show ?thesis
          by (rule step [of STAR cs]) (use Cons star True lcs in auto)
      next
        case False
        then have res: "res \<noteq> []" "last res = STAR" by auto
        have X: "translate_aux res p = translate_aux res cs"
          using Cons star res by simp
        have Y: "translate_aux [] p = translate_aux [STAR] cs"
          using Cons star by simp
        have L: "glob_match (translate_aux res p) n \<longleftrightarrow>
            (\<exists>a b. n = a @ b \<and> glob_match res a \<and> glob_match (translate_aux [] cs) b)"
          unfolding X using less [OF lcs] .
        have R: "glob_match (translate_aux [] p) m \<longleftrightarrow>
            (\<exists>a b. m = a @ b \<and> glob_match (translate_aux [] cs) b)" for m
          unfolding Y using less [OF lcs, of "[STAR]" m] by (simp add: glob_match_star_all)
        show ?thesis
        proof
          assume "glob_match (translate_aux res p) n"
          with L obtain a b where ab: "n = a @ b" "glob_match res a" "glob_match (translate_aux [] cs) b"
            by blast
          have "b = [] @ b" by simp
          with ab(3) R have "glob_match (translate_aux [] p) b" by blast
          with ab show "\<exists>a b. n = a @ b \<and> glob_match res a \<and> glob_match (translate_aux [] p) b"
            by blast
        next
          assume "\<exists>a b. n = a @ b \<and> glob_match res a \<and> glob_match (translate_aux [] p) b"
          then obtain a b where ab: "n = a @ b" "glob_match res a" "glob_match (translate_aux [] p) b"
            by blast
          from ab(3) R obtain x y where xy: "b = x @ y" "glob_match (translate_aux [] cs) y"
            by blast
          have "glob_match res (a @ x)" using star_end_absorbs [OF res ab(2)] .
          moreover have "n = (a @ x) @ y" using ab(1) xy(1) by simp
          ultimately show "glob_match (translate_aux res p) n" using xy(2) L by blast
        qed
      qed
    next
      case nostar: False
      show ?thesis
      proof (cases "c = CHR ''?''")
        case True
        show ?thesis
          by (rule step [of ANYCHAR cs]) (use Cons nostar True lcs in auto)
      next
        case noq: False
        show ?thesis
        proof (cases "c = CHR ''[''")
          case br: True
          show ?thesis
          proof (cases "find_close cs")
            case None
            show ?thesis
              by (rule step [of "LIT (CHR ''['')" cs]) (use Cons br None lcs in auto)
          next
            case (Some sr)
            obtain stuff rest where sr: "sr = (stuff, rest)" by (cases sr)
            have "length rest < length p"
              using find_close_shorter [of cs stuff rest] Some sr Cons by simp
            then show ?thesis
              by (intro step [of "make_set stuff" rest]) (use Cons br Some sr in auto)
          qed
        next
          case False
          show ?thesis
            by (rule step [of "LIT c" cs]) (use Cons nostar noq False lcs in auto)
        qed
      qed
    qed
  qed
qed

lemma fnmatch_cons_token:
  assumes "translate_aux [] (c # p) = translate_aux [t] p"
  shows "fnmatch n (c # p) \<longleftrightarrow> (\<exists>a b. n = a @ b \<and> glob_match [t] a \<and> fnmatch b p)"
  unfolding fnmatch_def translate_def assms
  using translate_aux_sem [of "[t]" p n] .

lemma fnmatch_star:
  "fnmatch n (CHR ''*'' # p) \<longleftrightarrow> (\<exists>run rest. n = run @ rest \<and> fnmatch rest p)"
  using fnmatch_cons_token [of "CHR ''*''" p STAR n] by (simp add: glob_match_star_all)

lemma glob_match_one: "t \<noteq> STAR \<Longrightarrow> glob_match [t] a \<longleftrightarrow> (\<exists>c. a = [c] \<and> token_matches t c)"
  by (auto simp: glob_match_single_cons)

lemma fnmatch_cons_single:
  assumes tr: "translate_aux [] (c # p) = translate_aux [t] p" and t: "t \<noteq> STAR"
  shows "fnmatch n (c # p) \<longleftrightarrow> (\<exists>d rest. n = d # rest \<and> token_matches t d \<and> fnmatch rest p)"
proof
  assume "fnmatch n (c # p)"
  then obtain a b where ab: "n = a @ b" "glob_match [t] a" "fnmatch b p"
    using fnmatch_cons_token [OF tr] by blast
  from ab(2) t obtain d where "a = [d]" "token_matches t d"
    using glob_match_one by blast
  with ab show "\<exists>d rest. n = d # rest \<and> token_matches t d \<and> fnmatch rest p"
    by simp
next
  assume "\<exists>d rest. n = d # rest \<and> token_matches t d \<and> fnmatch rest p"
  then obtain d rest where dr: "n = d # rest" "token_matches t d" "fnmatch rest p"
    by blast
  have "n = [d] @ rest" using dr(1) by simp
  moreover have "glob_match [t] [d]" using dr(2) t glob_match_one by blast
  ultimately show "fnmatch n (c # p)"
    using dr(3) fnmatch_cons_token [OF tr] by blast
qed

lemma fnmatch_question:
  "fnmatch n (CHR ''?'' # p) \<longleftrightarrow> (\<exists>c rest. n = c # rest \<and> fnmatch rest p)"
  using fnmatch_cons_single [of "CHR ''?''" p ANYCHAR n] by simp

lemma fnmatch_literal:
  assumes "c \<noteq> CHR ''*''" "c \<noteq> CHR ''?''" "c \<noteq> CHR ''[''"
  shows "fnmatch n (c # p) \<longleftrightarrow> (\<exists>rest. n = c # rest \<and> fnmatch rest p)"
  using fnmatch_cons_single [of c p "LIT c" n] assms by auto

lemma fnmatch_empty: "fnmatch n [] \<longleftrightarrow> n = []"
  by (simp add: fnmatch_def translate_def)

lemma fnmatch_star_only: "fnmatch n ''*''"
  by (simp add: fnmatch_star fnmatch_empty)

section \<open>Properties of the file filter\<close>

lemma py_or_None: "py_or None d = d"
  by (simp add: py_or_def)

lemma py_or_Nil: "py_or (Some []) d = d"
  by (simp add: py_or_def)

lemma py_or_deny: "py_or deny [] = (case deny of None \<Rightarrow> [] | Some d \<Rightarrow> d)"
  by (simp add: py_or_def split: option.splits)

lemma match_star: "match [''*''] deny_list n \<longleftrightarrow> \<not> list_ex (\<lambda>p. fnmatch n p) deny_list"
  by (simp add: match_def fnmatch_star_only)

text \<open>
  C1, as amended. For every file name, every deny list (absent counts as empty) and
  every non-empty allow list, the predicate built by \<open>compose_filter\<close> is true on
  the name if and only if the name matches at least one allow pattern and matches no
  deny pattern.
\<close>

theorem compose_filter_allow_deny:
  assumes "allow \<noteq> []"
  shows "compose_filter (Some allow) deny n \<longleftrightarrow>
           matches_any n allow \<and> \<not> matches_any n (case deny of None \<Rightarrow> [] | Some d \<Rightarrow> d)"
  using assms
  by (simp add: compose_filter_def match_def matches_any_def py_or_deny)
     (simp add: py_or_def)

theorem compose_filter_allow_deny_witness:
  "[''*.py''] \<noteq> ([] :: string list)
   \<and> compose_filter (Some [''*.py'']) (Some [''test_*'']) ''gilot/app.py''
   \<and> \<not> compose_filter (Some [''*.py'']) (Some [''gilot/*'']) ''gilot/app.py''"
  using compose_filter_allow_deny [of "[''*.py'']" "Some [''test_*'']" "''gilot/app.py''"]
        compose_filter_allow_deny [of "[''*.py'']" "Some [''gilot/*'']" "''gilot/app.py''"]
  by (simp add: matches_any_def fnmatch_def translate_def)

text \<open>
  C1 as stated fails at the empty allow list: no pattern of the empty list matches the
  name, yet the predicate accepts it, because the empty list is replaced by the
  default.
\<close>

theorem compose_filter_empty_allow_counterexample:
  "compose_filter (Some []) (Some []) ''a''
   \<and> \<not> (matches_any ''a'' [] \<and> \<not> matches_any ''a'' [])"
  by (simp add: compose_filter_def py_or_def match_def matches_any_def fnmatch_star_only)

text \<open>
  C3. With no allow patterns the allow list is the single pattern \<open>*\<close>, which
  matches every name; with no deny patterns the deny list is empty; so the predicate
  built from no patterns at all accepts every file name.
\<close>

theorem compose_filter_defaults:
  "compose_filter None deny = match [''*''] (py_or deny [])
   \<and> compose_filter allow None = match (py_or allow [''*'']) []
   \<and> fnmatch n ''*''
   \<and> compose_filter None None n"
  by (simp add: compose_filter_def py_or_None match_star fnmatch_star_only)

text \<open>
  C4. In a pattern, \<open>*\<close> matches any run of characters (empty or not, path
  separators included) and \<open>?\<close> matches exactly one character, whatever it is. The
  path separator is an ordinary literal, the whole name must be matched, and the
  filter hands the full path string to the matcher.
\<close>

theorem fnmatch_glob_semantics:
  "(fnmatch n (CHR ''*'' # p) \<longleftrightarrow> (\<exists>run rest. n = run @ rest \<and> fnmatch rest p))
   \<and> (fnmatch n (CHR ''?'' # p) \<longleftrightarrow> (\<exists>c rest. n = c # rest \<and> fnmatch rest p))
   \<and> (fnmatch n (CHR ''/'' # p) \<longleftrightarrow> (\<exists>rest. n = CHR ''/'' # rest \<and> fnmatch rest p))
   \<and> (fnmatch n [] \<longleftrightarrow> n = [])
   \<and> (compose_filter (Some [p]) None n \<longleftrightarrow> fnmatch n p)
   \<and> fnmatch ''src/pkg/mod.py'' ''src/*.py''"
proof -
  have "fnmatch ''src/pkg/mod.py'' ''src/*.py''"
    by (simp add: fnmatch_def translate_def)
  moreover have "compose_filter (Some [p]) None n \<longleftrightarrow> fnmatch n p"
    by (simp add: compose_filter_def py_or_def match_def)
  ultimately show ?thesis
    using fnmatch_star [of n p] fnmatch_question [of n p] fnmatch_empty [of n]
      fnmatch_literal [of "CHR ''/''" n p]
    by simp
qed

text \<open>
  C8. An empty allow list given explicitly builds the same predicate as an absent one:
  it accepts exactly the names that no deny pattern matches.
\<close>

theorem compose_filter_empty_allow:
  "compose_filter (Some []) deny n = compose_filter None deny n
   \<and> (compose_filter (Some []) deny n \<longleftrightarrow> \<not> list_ex (\<lambda>p. fnmatch n p) (py_or deny []))"
  by (simp add: compose_filter_def py_or_None py_or_Nil match_star)

section \<open>The predicate reads two lists and writes nothing\<close>







section \<open>Properties of duration resolution\<close>

lemma month_index_add_months: "month_index (add_months d k) = month_index d + k"
  by (simp add: add_months_def month_index_def Let_def)

lemma date_less_add_months: "0 < k \<Longrightarrow> date_less d (add_months d k)"
  by (simp add: date_less_def month_index_add_months)

lemma date_less_sub_months: "0 < k \<Longrightarrow> date_less (add_months d (- k)) d"
  by (simp add: date_less_def month_index_add_months)

lemma truthy_Some: "truthy (Some s) \<longleftrightarrow> s \<noteq> []"
  by (simp add: truthy_def)

lemma truthy_None: "\<not> truthy None"
  by (simp add: truthy_def)

lemma parse_date_nonempty: "parse_date s = Some d \<Longrightarrow> s \<noteq> []"
  by (auto simp: parse_date_def split: if_splits)

lemma py_int_nonempty: "py_int s = Some m \<Longrightarrow> s \<noteq> []"
  by (auto simp: py_int_def strip_def)

lemma months_between_add: "months_between (Duration s (add_months s m)) = m"
  by (simp add: months_between_def month_index_add_months)

lemma months_between_sub: "months_between (Duration (add_months now (- m)) now) = m"
  by (simp add: months_between_def month_index_add_months)

lemma Duration_months_since:
  "0 < m \<Longrightarrow> parse_date s = Some ds \<Longrightarrow>
   Duration_months now m (Some s) = Inr (Duration ds (add_months ds m))"
  by (simp add: Duration_months_def)

lemma Duration_months_now:
  "0 < m \<Longrightarrow> Duration_months now m None = Inr (Duration (add_months now (- m)) now)"
  by (simp add: Duration_months_def)

text \<open>
  C2. Duration resolution has five rules and the first that applies wins. With
  \<open>since\<close> and \<open>until\<close> the interval runs from \<open>since\<close> to \<open>until\<close>
  (whatever the month count); with \<open>since\<close> and a month count \<open>m\<close> it is the
  \<open>m\<close> months from \<open>since\<close>; with \<open>since\<close> alone the 6 months from
  \<open>since\<close>; with a month count \<open>m\<close> and no \<open>since\<close> the \<open>m\<close> months up
  to now; and with neither the 6 months up to now. Each interval spans exactly that
  many calendar months. (The dates are well formed, \<open>since\<close> is before
  \<open>until\<close>, the month count is positive.)
\<close>

theorem args_to_duration_rules:
  "(parse_date s = Some ds \<and> parse_date u = Some du \<and> date_less ds du \<longrightarrow>
      args_to_duration now \<lparr>since = Some s, until = Some u, month = mo\<rparr> = Inr (Duration ds du))
   \<and> (parse_date s = Some ds \<and> \<not> truthy un \<and> py_int ms = Some m \<and> 0 < m \<longrightarrow>
      args_to_duration now \<lparr>since = Some s, until = un, month = Some ms\<rparr>
        = Inr (Duration ds (add_months ds m))
      \<and> months_between (Duration ds (add_months ds m)) = m)
   \<and> (parse_date s = Some ds \<and> \<not> truthy un \<and> \<not> truthy mo \<longrightarrow>
      args_to_duration now \<lparr>since = Some s, until = un, month = mo\<rparr>
        = Inr (Duration ds (add_months ds 6))
      \<and> months_between (Duration ds (add_months ds 6)) = 6)
   \<and> (\<not> truthy si \<and> py_int ms = Some m \<and> 0 < m \<longrightarrow>
      args_to_duration now \<lparr>since = si, until = un, month = Some ms\<rparr>
        = Inr (Duration (add_months now (- m)) now)
      \<and> months_between (Duration (add_months now (- m)) now) = m)
   \<and> (\<not> truthy si \<and> \<not> truthy mo \<longrightarrow>
      args_to_duration now \<lparr>since = si, until = un, month = mo\<rparr>
        = Inr (Duration (add_months now (- 6)) now)
      \<and> months_between (Duration (add_months now (- 6)) now) = 6)"
proof (intro conjI impI)
  assume "parse_date s = Some ds \<and> parse_date u = Some du \<and> date_less ds du"
  then show "args_to_duration now \<lparr>since = Some s, until = Some u, month = mo\<rparr> = Inr (Duration ds du)"
    using parse_date_nonempty [of s ds] parse_date_nonempty [of u du]
    by (simp add: args_to_duration_def truthy_Some Duration_range_def)
next
  assume h: "parse_date s = Some ds \<and> \<not> truthy un \<and> py_int ms = Some m \<and> 0 < m"
  then show "args_to_duration now \<lparr>since = Some s, until = un, month = Some ms\<rparr>
        = Inr (Duration ds (add_months ds m))"
    using parse_date_nonempty [of s ds] py_int_nonempty [of ms m]
    by (simp add: args_to_duration_def truthy_Some Duration_months_since)
next
  assume h: "parse_date s = Some ds \<and> \<not> truthy un \<and> \<not> truthy mo"
  then show "args_to_duration now \<lparr>since = Some s, until = un, month = mo\<rparr>
        = Inr (Duration ds (add_months ds 6))"
    using parse_date_nonempty [of s ds]
    by (simp add: args_to_duration_def truthy_Some Duration_months_since)
next
  assume h: "\<not> truthy si \<and> py_int ms = Some m \<and> 0 < m"
  then show "args_to_duration now \<lparr>since = si, until = un, month = Some ms\<rparr>
        = Inr (Duration (add_months now (- m)) now)"
    using py_int_nonempty [of ms m]
    by (simp add: args_to_duration_def truthy_Some Duration_months_now)
next
  assume h: "\<not> truthy si \<and> \<not> truthy mo"
  then show "args_to_duration now \<lparr>since = si, until = un, month = mo\<rparr>
        = Inr (Duration (add_months now (- 6)) now)"
    by (simp add: args_to_duration_def Duration_months_now)
qed (simp_all add: months_between_add months_between_sub)

text \<open>
  The five rules at concrete options, the clock reading 15 March 2021.
\<close>

theorem args_to_duration_rules_witness:
  "args_to_duration (Date 2021 3 15)
      \<lparr>since = Some ''2020-01-31'', until = Some ''2020-06-01'', month = Some ''3''\<rparr>
     = Inr (Duration (Date 2020 1 31) (Date 2020 6 1))
   \<and> args_to_duration (Date 2021 3 15)
      \<lparr>since = Some ''2020-01-31'', until = None, month = Some ''1''\<rparr>
     = Inr (Duration (Date 2020 1 31) (Date 2020 2 29))
   \<and> args_to_duration (Date 2021 3 15)
      \<lparr>since = Some ''2020-01-31'', until = None, month = None\<rparr>
     = Inr (Duration (Date 2020 1 31) (Date 2020 7 31))
   \<and> args_to_duration (Date 2021 3 15)
      \<lparr>since = None, until = None, month = Some ''14''\<rparr>
     = Inr (Duration (Date 2020 1 15) (Date 2021 3 15))
   \<and> args_to_duration (Date 2021 3 15)
      \<lparr>since = None, until = None, month = None\<rparr>
     = Inr (Duration (Date 2020 9 15) (Date 2021 3 15))"
proof -
  have p1: "parse_date ''2020-01-31'' = Some (Date 2020 1 31)" by code_simp
  have p2: "parse_date ''2020-06-01'' = Some (Date 2020 6 1)" by code_simp
  have lt: "date_less (Date 2020 1 31) (Date 2020 6 1)" by code_simp
  have i1: "py_int ''1'' = Some 1" by code_simp
  have i14: "py_int ''14'' = Some 14" by code_simp
  have a1: "add_months (Date 2020 1 31) 1 = Date 2020 2 29" by code_simp
  have a6: "add_months (Date 2020 1 31) 6 = Date 2020 7 31" by code_simp
  have b14: "add_months (Date 2021 3 15) (- 14) = Date 2020 1 15" by code_simp
  have b6: "add_months (Date 2021 3 15) (- 6) = Date 2020 9 15" by code_simp
  note r = args_to_duration_rules [where now = "Date 2021 3 15"]
  have "args_to_duration (Date 2021 3 15)
      \<lparr>since = Some ''2020-01-31'', until = Some ''2020-06-01'', month = Some ''3''\<rparr>
     = Inr (Duration (Date 2020 1 31) (Date 2020 6 1))"
    using r [where s = "''2020-01-31''" and ds = "Date 2020 1 31" and u = "''2020-06-01''"
               and du = "Date 2020 6 1" and mo = "Some ''3''"] p1 p2 lt
    by blast
  moreover have "args_to_duration (Date 2021 3 15)
      \<lparr>since = Some ''2020-01-31'', until = None, month = Some ''1''\<rparr>
     = Inr (Duration (Date 2020 1 31) (Date 2020 2 29))"
    using r [where s = "''2020-01-31''" and ds = "Date 2020 1 31" and un = None
               and ms = "''1''" and m = 1] p1 i1 a1 truthy_None
    by simp
  moreover have "args_to_duration (Date 2021 3 15)
      \<lparr>since = Some ''2020-01-31'', until = None, month = None\<rparr>
     = Inr (Duration (Date 2020 1 31) (Date 2020 7 31))"
    using r [where s = "''2020-01-31''" and ds = "Date 2020 1 31" and un = None
               and mo = None] p1 a6 truthy_None
    by simp
  moreover have "args_to_duration (Date 2021 3 15)
      \<lparr>since = None, until = None, month = Some ''14''\<rparr>
     = Inr (Duration (Date 2020 1 15) (Date 2021 3 15))"
    using r [where si = None and un = None and ms = "''14''" and m = 14] i14 b14 truthy_None
    by simp
  moreover have "args_to_duration (Date 2021 3 15)
      \<lparr>since = None, until = None, month = None\<rparr>
     = Inr (Duration (Date 2020 9 15) (Date 2021 3 15))"
    using r [where si = None and un = None and mo = None] b6 truthy_None
    by simp
  ultimately show ?thesis by blast
qed

lemma parse_date_month: "parse_date s = Some d \<Longrightarrow> 1 \<le> month_of d \<and> month_of d \<le> 12"
  by (auto simp: parse_date_def Let_def split: if_splits)

lemma date_eqI:
  assumes "1 \<le> month_of a" "month_of a \<le> 12" "1 \<le> month_of b" "month_of b \<le> 12"
    and "month_index a = month_index b" "day_of a = day_of b"
  shows "a = b"
proof -
  have "year_of a = year_of b \<and> month_of a = month_of b"
    using assms(1-5) unfolding month_index_def by presburger
  with assms(6) show ?thesis by (simp add: date.expand)
qed

lemma date_le_iff_not_less:
  assumes "parse_date s = Some a" "parse_date u = Some b"
  shows "date_le b a \<longleftrightarrow> \<not> date_less a b"
proof -
  have m: "1 \<le> month_of a" "month_of a \<le> 12" "1 \<le> month_of b" "month_of b \<le> 12"
    using assms parse_date_month by blast+
  show ?thesis
  proof
    assume "date_le b a"
    then show "\<not> date_less a b"
      unfolding date_le_def date_less_def by auto
  next
    assume n: "\<not> date_less a b"
    show "date_le b a"
    proof (cases "month_index a = month_index b \<and> day_of a = day_of b")
      case True
      then have "b = a" using date_eqI [OF m(3,4) m(1,2)] by simp
      then show ?thesis by (simp add: date_le_def)
    next
      case False
      with n show ?thesis unfolding date_le_def date_less_def by auto
    qed
  qed
qed

text \<open>
  C5, as amended. On a valid configuration duration resolution fails with
  \<^verbatim>\<open>InvalidRangeError\<close> in exactly two cases: \<open>since\<close> and \<open>until\<close> are both
  given and \<open>until\<close> is not after \<open>since\<close>; or they are not both given and a
  month count \<open>m \<le> 0\<close> is given. In every other valid configuration it returns a
  duration whose start is before its end.
\<close>

theorem args_to_duration_failure:
  assumes "valid_config a"
  shows "(args_to_duration now a = Inl InvalidRangeError \<longleftrightarrow>
            (\<exists>s u. since_date a = Some s \<and> until_date a = Some u \<and> date_le u s)
            \<or> (\<not> (truthy (since a) \<and> truthy (until a))
                \<and> (\<exists>m. month_count a = Some m \<and> m \<le> 0)))
         \<and> (args_to_duration now a \<noteq> Inl InvalidRangeError \<longrightarrow>
            (\<exists>d. args_to_duration now a = Inr d \<and> date_less (dur_start d) (dur_end d)))"
proof (cases "truthy (since a) \<and> truthy (until a)")
  case True
  then obtain s u where su: "since_date a = Some s" "until_date a = Some u"
    using assms by (auto simp: valid_config_def)
  then have p: "parse_date (the (since a)) = Some s" "parse_date (the (until a)) = Some u"
    using True by (simp_all add: since_date_def until_date_def)
  have le: "date_le u s \<longleftrightarrow> \<not> date_less s u"
    using date_le_iff_not_less [OF p] .
  have "args_to_duration now a = (if date_less s u then Inr (Duration s u) else Inl InvalidRangeError)"
    using True p by (simp add: args_to_duration_def Duration_range_def)
  then show ?thesis using su le True by auto
next
  case False
  have sd: "truthy (since a) \<Longrightarrow> \<exists>s. parse_date (the (since a)) = Some s"
    using assms by (auto simp: valid_config_def since_date_def)
  have nosu: "\<not> (\<exists>s u. since_date a = Some s \<and> until_date a = Some u)"
    using False by (auto simp: since_date_def until_date_def split: if_splits)
  have months: "Duration_months now m (if truthy (since a) then since a else None)
       = (if m \<le> 0 then Inl InvalidRangeError
          else Inr (if truthy (since a)
                    then Duration (the (parse_date (the (since a)))) (add_months (the (parse_date (the (since a)))) m)
                    else Duration (add_months now (- m)) now))" for m
    using sd by (cases "since a") (auto simp: Duration_months_def truthy_def)
  show ?thesis
  proof (cases "truthy (month a)")
    case mt: True
    then obtain m where m: "py_int (the (month a)) = Some m" "month_count a = Some m"
      using assms by (auto simp: valid_config_def month_count_def)
    have "args_to_duration now a = Duration_months now m (if truthy (since a) then since a else None)"
      using False mt m by (simp add: args_to_duration_def)
    then have r: "args_to_duration now a
       = (if m \<le> 0 then Inl InvalidRangeError
          else Inr (if truthy (since a)
                    then Duration (the (parse_date (the (since a)))) (add_months (the (parse_date (the (since a)))) m)
                    else Duration (add_months now (- m)) now))"
      using months by simp
    show ?thesis
      using r m(2) nosu False
      by (auto simp: date_less_add_months date_less_sub_months)
  next
    case mf: False
    then have mc: "month_count a = None" by (simp add: month_count_def)
    have "args_to_duration now a = Duration_months now 6 (if truthy (since a) then since a else None)"
      using False mf by (simp add: args_to_duration_def)
    then have r: "args_to_duration now a
       = Inr (if truthy (since a)
              then Duration (the (parse_date (the (since a)))) (add_months (the (parse_date (the (since a)))) 6)
              else Duration (add_months now (- 6)) now)"
      using months [of 6] by simp
    show ?thesis
      using r mc nosu
      by (auto simp: date_less_add_months date_less_sub_months)
  qed
qed

text \<open>
  Two valid configurations that fail, one for each case, and one that does not.
\<close>

theorem args_to_duration_failure_witness:
  "valid_config \<lparr>since = Some ''2020-06-01'', until = Some ''2020-01-01'', month = None\<rparr>
   \<and> args_to_duration (Date 2021 3 15)
        \<lparr>since = Some ''2020-06-01'', until = Some ''2020-01-01'', month = None\<rparr>
       = Inl InvalidRangeError
   \<and> valid_config \<lparr>since = None, until = Some ''2020-01-01'', month = Some ''-2''\<rparr>
   \<and> args_to_duration (Date 2021 3 15)
        \<lparr>since = None, until = Some ''2020-01-01'', month = Some ''-2''\<rparr>
       = Inl InvalidRangeError
   \<and> valid_config \<lparr>since = Some ''2020-06-01'', until = None, month = Some ''2''\<rparr>
   \<and> args_to_duration (Date 2021 3 15)
         \<lparr>since = Some ''2020-06-01'', until = None, month = Some ''2''\<rparr>
       \<noteq> Inl InvalidRangeError"
proof -
  let ?a = "\<lparr>since = Some ''2020-06-01'', until = Some ''2020-01-01'', month = None\<rparr>"
  let ?b = "\<lparr>since = None, until = Some ''2020-01-01'', month = Some ''-2''\<rparr>"
  let ?c = "\<lparr>since = Some ''2020-06-01'', until = None, month = Some ''2''\<rparr>"
  have p1: "parse_date ''2020-06-01'' = Some (Date 2020 6 1)" by code_simp
  have p2: "parse_date ''2020-01-01'' = Some (Date 2020 1 1)" by code_simp
  have i2: "py_int ''-2'' = Some (- 2)" by code_simp
  have i3: "py_int ''2'' = Some 2" by code_simp
  have le: "date_le (Date 2020 1 1) (Date 2020 6 1)" by code_simp
  have va: "valid_config ?a"
    by (simp add: valid_config_def since_date_def until_date_def month_count_def truthy_def p1 p2)
  have vb: "valid_config ?b"
    by (simp add: valid_config_def since_date_def until_date_def month_count_def truthy_def p2 i2)
  have vc: "valid_config ?c"
    by (simp add: valid_config_def since_date_def until_date_def month_count_def truthy_def p1 i3)
  have "args_to_duration (Date 2021 3 15) ?a = Inl InvalidRangeError"
    using args_to_duration_failure [OF va, of "Date 2021 3 15"] le
    by (simp add: since_date_def until_date_def truthy_def p1 p2)
  moreover have "args_to_duration (Date 2021 3 15) ?b = Inl InvalidRangeError"
    using args_to_duration_failure [OF vb, of "Date 2021 3 15"]
    by (simp add: since_date_def until_date_def month_count_def truthy_def i2)
  moreover have "args_to_duration (Date 2021 3 15) ?c \<noteq> Inl InvalidRangeError"
    using args_to_duration_failure [OF vc, of "Date 2021 3 15"]
    by (simp add: since_date_def until_date_def month_count_def truthy_def i3)
  ultimately show ?thesis using va vb vc by blast
qed

text \<open>
  C5 as stated fails where \<open>since\<close>, \<open>until\<close> and a month count of 0 are all
  given: the first rule applies, the month count is never read, and the result is the
  interval from \<open>since\<close> to \<open>until\<close>.
\<close>

theorem args_to_duration_ignored_month_counterexample:
  "valid_config \<lparr>since = Some ''2020-01-01'', until = Some ''2020-06-01'', month = Some ''0''\<rparr>
   \<and> month_count \<lparr>since = Some ''2020-01-01'', until = Some ''2020-06-01'', month = Some ''0''\<rparr>
       = Some 0
   \<and> args_to_duration (Date 2021 3 15)
        \<lparr>since = Some ''2020-01-01'', until = Some ''2020-06-01'', month = Some ''0''\<rparr>
       = Inr (Duration (Date 2020 1 1) (Date 2020 6 1))"
  by code_simp

text \<open>
  C10. Whether an option counts as supplied is decided by its truth value. An empty
  text for \<open>since\<close> or \<open>until\<close> resolves as an absent one does, so
  \<open>since\<close> with an empty \<open>until\<close> gives the 6 months from \<open>since\<close>. The
  month text \<^verbatim>\<open>"0"\<close> is true, reads as the integer 0, and is passed on as the month
  count 0 wherever the month count is read.
\<close>

theorem args_to_duration_truthiness:
  "args_to_duration now \<lparr>since = Some [], until = un, month = mo\<rparr>
     = args_to_duration now \<lparr>since = None, until = un, month = mo\<rparr>
   \<and> args_to_duration now \<lparr>since = si, until = Some [], month = mo\<rparr>
     = args_to_duration now \<lparr>since = si, until = None, month = mo\<rparr>
   \<and> (s \<noteq> [] \<longrightarrow>
        args_to_duration now \<lparr>since = Some s, until = Some [], month = None\<rparr>
          = Duration_months now 6 (Some s))
   \<and> truthy (Some ''0'') \<and> py_int ''0'' = Some 0
   \<and> (s \<noteq> [] \<and> \<not> truthy un \<longrightarrow>
        args_to_duration now \<lparr>since = Some s, until = un, month = Some ''0''\<rparr>
          = Duration_months now 0 (Some s))
   \<and> (\<not> truthy si \<longrightarrow>
        args_to_duration now \<lparr>since = si, until = un, month = Some ''0''\<rparr>
          = Duration_months now 0 None)"
proof -
  have z: "py_int ''0'' = Some 0" by code_simp
  show ?thesis
    by (auto simp: args_to_duration_def truthy_def z split: option.splits)
qed

text \<open>
  The same at concrete options.
\<close>

theorem args_to_duration_truthiness_witness:
  "args_to_duration (Date 2021 3 15)
       \<lparr>since = Some ''2020-06-01'', until = Some [], month = None\<rparr>
     = Duration_months (Date 2021 3 15) 6 (Some ''2020-06-01'')
   \<and> args_to_duration (Date 2021 3 15)
       \<lparr>since = Some ''2020-06-01'', until = None, month = Some ''0''\<rparr>
     = Duration_months (Date 2021 3 15) 0 (Some ''2020-06-01'')
   \<and> args_to_duration (Date 2021 3 15)
       \<lparr>since = Some [], until = Some ''2020-06-01'', month = Some ''0''\<rparr>
     = Duration_months (Date 2021 3 15) 0 None"
proof -
  note t = args_to_duration_truthiness [where now = "Date 2021 3 15" and s = "''2020-06-01''"
      and mo = "Some ''0''"]
  have ne: "''2020-06-01'' \<noteq> []" by simp
  have "args_to_duration (Date 2021 3 15)
       \<lparr>since = Some ''2020-06-01'', until = Some [], month = None\<rparr>
     = Duration_months (Date 2021 3 15) 6 (Some ''2020-06-01'')"
    using t [where un = None and si = None] ne by blast
  moreover have "args_to_duration (Date 2021 3 15)
       \<lparr>since = Some ''2020-06-01'', until = None, month = Some ''0''\<rparr>
     = Duration_months (Date 2021 3 15) 0 (Some ''2020-06-01'')"
    using t [where un = None and si = None] ne truthy_None by blast
  moreover have "args_to_duration (Date 2021 3 15)
       \<lparr>since = Some [], until = Some ''2020-06-01'', month = Some ''0''\<rparr>
     = Duration_months (Date 2021 3 15) 0 None"
    using t [where un = "Some ''2020-06-01''" and si = "Some []"] truthy_Some [of "[]"] by blast
  ultimately show ?thesis by blast
qed

section \<open>Properties of the handlers\<close>

text \<open>
  C9. When neither option holds a pattern, \<open>handle_plot\<close> and \<open>handle_info\<close>
  pass the loaded table on as it is, whatever \<open>filter_files\<close> would do; when at
  least one holds a pattern they pass on the table filtered by the composed
  predicate. \<open>handle_hotspot\<close> and \<open>handle_hotgraph\<close> give the composed
  predicate to \<open>expand_files\<close> in every case.
\<close>

theorem handlers_apply_filter:
  "(\<not> truthy_list (allow_files a) \<and> \<not> truthy_list (ignore_files a) \<longrightarrow>
      handle_plot g a = Plot (from_csvs g (input a)) (output_file a) (name a) (timeslot a)
      \<and> handle_info g a = Info (from_csvs g (input a))
      \<and> handle_plot (g\<lparr>filter_files := ff\<rparr>) a = handle_plot g a
      \<and> handle_info (g\<lparr>filter_files := ff\<rparr>) a = handle_info g a)
   \<and> (truthy_list (allow_files a) \<or> truthy_list (ignore_files a) \<longrightarrow>
      handle_plot g a =
        Plot (filter_files g (from_csvs g (input a)) (compose_filter (allow_files a) (ignore_files a)))
          (output_file a) (name a) (timeslot a)
      \<and> handle_info g a =
        Info (filter_files g (from_csvs g (input a)) (compose_filter (allow_files a) (ignore_files a))))
   \<and> handle_hotspot g a =
        (if csv a
         then Hotspot_csv (expand_files g (from_csvs g (input a))
                (compose_filter (allow_files a) (ignore_files a))) (output_file a)
         else Hotspot_print (expand_files g (from_csvs g (input a))
                (compose_filter (allow_files a) (ignore_files a))) (num a))
   \<and> handle_hotgraph g a =
        Hotgraph (expand_files g (from_csvs g (input a))
                (compose_filter (allow_files a) (ignore_files a)))
          (output_file a) (rank a) (stop_retry a)"
  by (simp add: handle_plot_def handle_info_def handle_hotspot_def handle_hotgraph_def)

text \<open>
  The handlers on a table of two file names, without options and with one allow
  pattern.
\<close>

theorem handlers_apply_filter_witness:
  "\<not> truthy_list (allow_files (example_args None))
   \<and> \<not> truthy_list (ignore_files (example_args None))
   \<and> handle_plot example_gilot (example_args None)
       = Plot [''gilot/app.py'', ''README.md''] None ''GIT LOG REPORT'' ''2W''
   \<and> truthy_list (allow_files (example_args (Some [''*.py''])))
   \<and> handle_plot example_gilot (example_args (Some [''*.py'']))
       = Plot [''gilot/app.py''] None ''GIT LOG REPORT'' ''2W''
   \<and> handle_hotspot example_gilot (example_args None)
       = Hotspot_print [''gilot/app.py'', ''README.md''] 30"
proof -
  have f1: "\<not> truthy_list (allow_files (example_args None))"
           "\<not> truthy_list (ignore_files (example_args None))"
    by (simp_all add: example_args_def truthy_list_def)
  have f2: "truthy_list (allow_files (example_args (Some [''*.py''])))"
    by (simp add: example_args_def truthy_list_def)
  have m1: "compose_filter (Some [''*.py'']) None ''gilot/app.py''"
           "\<not> compose_filter (Some [''*.py'']) None ''README.md''"
    by code_simp+
  have m2: "compose_filter None None n" for n
    by (simp add: compose_filter_def py_or_def match_def fnmatch_star_only)
  have "handle_plot example_gilot (example_args None)
       = Plot [''gilot/app.py'', ''README.md''] None ''GIT LOG REPORT'' ''2W''"
    using handlers_apply_filter [of "example_args None" example_gilot] f1
    by (simp add: example_args_def example_gilot_def)
  moreover have "handle_plot example_gilot (example_args (Some [''*.py'']))
       = Plot [''gilot/app.py''] None ''GIT LOG REPORT'' ''2W''"
    using handlers_apply_filter [of "example_args (Some [''*.py''])" example_gilot] f2 m1
    by (simp add: example_args_def example_gilot_def)
  moreover have "handle_hotspot example_gilot (example_args None)
       = Hotspot_print [''gilot/app.py'', ''README.md''] 30"
    using handlers_apply_filter [of "example_args None" example_gilot] m2
    by (simp add: example_args_def example_gilot_def)
  ultimately show ?thesis using f1 f2 by blast
qed

section \<open>The order of the hotspot report\<close>

lemma row_before_total: "\<not> row_before a b \<Longrightarrow> row_before b a"
  by (auto simp: row_before_def)

lemma row_before_trans: "row_before a b \<Longrightarrow> row_before b c \<Longrightarrow> row_before a c"
  by (auto simp: row_before_def)

lemma set_insert_row: "set (insert_row x xs) = insert x (set xs)"
  by (induction xs) auto

lemma sorted_insert_row:
  "sorted_wrt row_before xs \<Longrightarrow> sorted_wrt row_before (insert_row x xs)"
proof (induction xs)
  case Nil
  show ?case by simp
next
  case (Cons y ys)
  show ?case
  proof (cases "row_before x y")
    case True
    have "\<forall>z\<in>set ys. row_before x z"
      using True Cons.prems row_before_trans by auto
    with True Cons.prems show ?thesis by simp
  next
    case False
    then have "row_before y x" by (rule row_before_total)
    with False Cons show ?thesis by (simp add: set_insert_row)
  qed
qed

lemma sorted_sort_rows: "sorted_wrt row_before (sort_rows xs)"
  by (induction xs) (simp_all add: sorted_insert_row)

text \<open>
  C6. In every hotspot report (the whole aggregation, or its first \<open>k\<close> rows as the
  handler prints them), of two adjacent rows the first has a score at least the
  second's, and when the scores are equal its file name is not after the second's.
\<close>

theorem hotspot_report_sorted:
  assumes "rows = take k (aggregate combine table)" and "Suc i < length rows"
  shows "hotspot (rows ! Suc i) \<le> hotspot (rows ! i)
         \<and> (hotspot (rows ! i) = hotspot (rows ! Suc i) \<longrightarrow>
              file_name (rows ! i) \<le> file_name (rows ! Suc i))"
proof -
  have "sorted_wrt row_before rows"
    unfolding assms(1) aggregate_def by (intro sorted_wrt_take sorted_sort_rows)
  then have "row_before (rows ! i) (rows ! Suc i)"
    using assms(2) by (simp add: sorted_wrt_nth_less)
  then show ?thesis by (auto simp: row_before_def)
qed

text \<open>
  The report of the spec's scenario, scored by the product of the two counts.
\<close>

lemma scenario_rows:
  "aggregate (\<lambda>c a. c * a) scenario =
     [\<lparr>file_name = ''A'', commits = 3, authors = 2, hotspot = 6\<rparr>,
      \<lparr>file_name = ''B'', commits = 2, authors = 1, hotspot = 2\<rparr>,
      \<lparr>file_name = ''C'', commits = 1, authors = 1, hotspot = 1\<rparr>,
      \<lparr>file_name = ''D'', commits = 1, authors = 1, hotspot = (1::nat)\<rparr>]"
  by code_simp

text \<open>
  In that report the third and the fourth row tie, and are in the order of their
  file names.
\<close>

theorem hotspot_report_sorted_witness:
  "Suc 2 < length (take 30 (aggregate (\<lambda>c a. c * a) scenario))
   \<and> hotspot (take 30 (aggregate (\<lambda>c a. c * a) scenario) ! Suc 2)
       \<le> hotspot (take 30 (aggregate (\<lambda>c a. c * a) scenario) ! 2)
   \<and> hotspot (take 30 (aggregate (\<lambda>c a. c * a) scenario) ! 2)
       = hotspot (take 30 (aggregate (\<lambda>c a. c * a) scenario) ! Suc 2)
   \<and> file_name (take 30 (aggregate (\<lambda>c a. c * a) scenario) ! 2)
       \<le> file_name (take 30 (aggregate (\<lambda>c a. c * a) scenario) ! Suc 2)"
proof -
  have len: "Suc 2 < length (take 30 (aggregate (\<lambda>c a. c * a) scenario))"
    by (simp add: scenario_rows)
  have tie: "hotspot (take 30 (aggregate (\<lambda>c a. c * a) scenario) ! 2)
       = hotspot (take 30 (aggregate (\<lambda>c a. c * a) scenario) ! Suc 2)"
    by (simp add: scenario_rows)
  from hotspot_report_sorted [OF refl len] tie len show ?thesis by blast
qed

end
